theory Spec2Isabelle
  imports Main
begin

section \<open>Strings\<close>

text \<open>
  JavaScript strings are modelled as \<open>string\<close>; \<open>length\<close> is the source's
  \<open>.length\<close>.  \<open>startsWith s p\<close> is \<open>s.startsWith(p)\<close> and \<open>str_includes s p\<close> is
  \<open>s.includes(p)\<close>: \<open>p\<close> occurs in \<open>s\<close> as a contiguous run.
\<close>

fun startsWith :: "string \<Rightarrow> string \<Rightarrow> bool" where
  "startsWith s [] = True"
| "startsWith [] (p # ps) = False"
| "startsWith (c # cs) (p # ps) = (c = p \<and> startsWith cs ps)"

fun str_includes :: "string \<Rightarrow> string \<Rightarrow> bool" where
  "str_includes [] p = (p = [])"
| "str_includes (c # cs) p = (startsWith (c # cs) p \<or> str_includes cs p)"

section \<open>Errors, requests, responses, values\<close>

text \<open>
  A thrown \<open>Error\<close> object: its \<open>name\<close>, its \<open>message\<close> and the optional
  \<open>status\<close> that a \<open>StatusError\<close> carries.
\<close>

datatype js_error = JsError (err_name: string) (err_message: string) (err_status: "nat option")

text \<open>\<open>err + ''\<close>: the string form of an error, as \<open>Error.prototype.toString\<close> builds it.\<close>

definition error_toString :: "js_error \<Rightarrow> string" where
  "error_toString err =
     (if err_name err = [] then err_message err
      else if err_message err = [] then err_name err
      else err_name err @ '': '' @ err_message err)"

record request =
  req_method :: string
  url :: string
  req_headers :: "(string \<times> string) list"
  req_body :: "string option"

text \<open>
  A response: \<open>resp_text\<close> is the outcome of \<open>response.text()\<close>, which rejects when the
  body cannot be read; \<open>webSocket\<close> is the client end handed over by an upgrade.
\<close>

record response =
  status :: nat
  resp_headers :: "(string \<times> string) list"
  resp_text :: "js_error + string"
  webSocket :: "nat option"

text \<open>Values; a function is known by its reference \<open>VFun r\<close>, compared by identity.\<close>

datatype js_value =
    VUndefined
  | VNull
  | VBool bool
  | VNum int
  | VStr string
  | VArr "js_value list"
  | VObj "(string \<times> js_value) list"
  | VFun nat
  | VReq request
  | VResp response

text \<open>
  The platform's built-ins, taken as parameters: \<open>JSON.stringify\<close> (which throws on
  a value it cannot serialise and yields \<open>undefined\<close>, here \<open>None\<close>, for one it skips),
  \<open>JSON.parse\<close> (which throws on malformed text), the coercion \<open>String(v)\<close>, the
  properties every object literal inherits from \<open>Object.prototype\<close>, the request
  that the native \<open>fetch(input, init)\<close> builds from its arguments, the URL parser
  (\<open>URL_href s\<close> is the serialisation of the parsed \<open>s\<close>, as \<open>new URL(s).href\<close>), and the
  \<open>TypeError\<close> raised when a value is called or spread although it is no function or
  no iterable.
\<close>

record platform =
  JSON_stringify :: "js_value \<Rightarrow> js_error + string option"
  JSON_parse :: "string \<Rightarrow> js_error + js_value"
  String_of :: "js_value \<Rightarrow> string"
  Object_prototype :: "(string \<times> js_value) list"
  Request_of :: "js_value list \<Rightarrow> js_error + request"
  URL_href :: "string \<Rightarrow> string"
  TypeError_for :: "js_value \<Rightarrow> js_error"

section \<open>The stub side: wire codec and retry policy\<close>

definition URL :: string where
  "URL = ''https://durable/''"

definition maxRetries :: nat where
  "maxRetries = 10"

text \<open>
  \<open>retryOn\<close> is a regular expression that joins four literal messages with \<open>|\<close>; none
  of them holds a metacharacter, so \<open>retryOn.test(s)\<close> is true exactly when one of them
  occurs in \<open>s\<close>.
\<close>

definition retryOn :: "string list" where
  "retryOn =
     [''Network connection lost'',
      ''Cannot resolve Durable Object due to transient issue on remote node'',
      ''Durable Object reset because its code was updated'',
      ''The Durable Object's code has been updated'']"

definition retryOn_test :: "string \<Rightarrow> bool" where
  "retryOn_test s = list_ex (str_includes s) retryOn"

definition shouldRetry :: "js_error \<Rightarrow> nat \<Rightarrow> bool" where
  "shouldRetry err retries =
     (if retries > maxRetries then False else retryOn_test (error_toString err))"

text \<open>
  \<open>new Request(`${URL}${prop}`, ...)\<close> parses the string and keeps the serialised URL,
  with the path percent-encoded and its dot segments resolved.  A name made of ASCII
  letters, digits, \<open>_\<close> and \<open>$\<close> only (\<open>plain_name\<close>) has nothing to encode or resolve,
  so its URL is the string itself; for any other name the URL is what the platform's
  parser makes of the string.  After the fixed prefix the parser is in the path, where
  it accepts every string, so the constructor does not throw on the URL.
\<close>

definition plain_name :: "string \<Rightarrow> bool" where
  "plain_name m =
     list_all (\<lambda>c. c \<in> set ''ABCDEFGHIJKLMNOPQRSTUVWXYZabcdefghijklmnopqrstuvwxyz0123456789_$'') m"

definition request_url :: "platform \<Rightarrow> string \<Rightarrow> string" where
  "request_url P prop = (if plain_name prop then URL @ prop else URL_href P (URL @ prop))"

definition createRequest :: "platform \<Rightarrow> string \<Rightarrow> js_value \<Rightarrow> js_error + request" where
  "createRequest P prop content =
     (case JSON_stringify P content of
        Inl err \<Rightarrow> Inl err
      | Inr b \<Rightarrow>
          Inr \<lparr> req_method = ''POST'',
                url = request_url P prop,
                req_headers = [(''Content-Type'', ''application/json'')],
                req_body = b \<rparr>)"

text \<open>
  \<open>transformResponse\<close>: the outer \<open>try\<close> guards \<open>response.text()\<close>, the inner one
  \<open>JSON.parse\<close>.  The result type keeps a place for a thrown error.
\<close>

definition transformResponse :: "platform \<Rightarrow> response \<Rightarrow> js_error + js_value" where
  "transformResponse P response =
     (case resp_text response of
        Inr text \<Rightarrow>
          (case JSON_parse P text of
             Inr v \<Rightarrow> Inr v
           | Inl err \<Rightarrow> Inr (VStr text))
      | Inl err \<Rightarrow> Inr (VResp response))"

text \<open>
  The transport handle's \<open>fetch\<close>: from the handle's state \<open>'h\<close> and a request to a
  settled outcome (\<open>Inl\<close>: the promise rejects) and the next state.  What a call of
  \<open>stubFetch\<close> does to the world is the list of its events, in order.
\<close>

type_synonym 'h transport = "'h \<Rightarrow> request \<Rightarrow> (js_error + response) \<times> 'h"

datatype event = Fetch request | SetTimeout nat

datatype 'a promise = Resolved 'a | Rejected js_error

text \<open>The delays of the timers set during a call, in order.\<close>

definition timeouts :: "event list \<Rightarrow> nat list" where
  "timeouts events = concat (map (\<lambda>e. case e of SetTimeout d \<Rightarrow> [d] | Fetch r \<Rightarrow> []) events)"

function stubFetch ::
  "platform \<Rightarrow> 'h transport \<Rightarrow> string \<Rightarrow> js_value \<Rightarrow> nat \<Rightarrow> 'h
     \<Rightarrow> js_value promise \<times> event list \<times> 'h" where
  "stubFetch P fetch prop content retries h =
     (case createRequest P prop content of
        Inl err \<Rightarrow> (Rejected err, [], h)
      | Inr req \<Rightarrow>
          (case fetch h req of (settled, h') \<Rightarrow>
             (case (case settled of Inr resp \<Rightarrow> transformResponse P resp | Inl err \<Rightarrow> Inl err) of
                Inr v \<Rightarrow> (Resolved v, [Fetch req], h')
              | Inl err \<Rightarrow>
                  if \<not> shouldRetry err retries then (Rejected err, [Fetch req], h')
                  else
                    (case stubFetch P fetch prop content (retries + 1) h' of
                       (result, events, h'') \<Rightarrow>
                         (result, Fetch req # SetTimeout (2 ^ retries * 10) # events, h'')))))"
  by pat_completeness auto
termination
  by (relation "measure (\<lambda>(P, fetch, prop, content, retries, h). Suc maxRetries - retries)")
     (auto simp: shouldRetry_def split: if_splits)

declare stubFetch.simps [simp del]

section \<open>The stub side: instance resolver and stub proxy\<close>

text \<open>
  Modelled from the spec: the host's namespace (\<open>DurableObjectNamespace\<close>), an
  external collaborator whose code is not in the repository.  The model keeps what the
  resolver relies on: \<open>newUniqueId\<close> mints an identifier never handed out before (a counter),
  \<open>idFromName\<close> is a pure function of the name, \<open>idFromString\<close> parses a canonical string
  or throws, and \<open>get\<close> hands out a handle for an identifier; \<open>stub_props\<close> are the
  properties, own or inherited, that \<open>p in handle\<close> finds on such a handle.
\<close>

datatype durable_id = UniqueId nat | NameId string | StringId string

record namespace =
  minted :: nat
  parses :: "string \<Rightarrow> bool"
  stub_props :: "string \<rightharpoonup> js_value"

definition newUniqueId :: "namespace \<Rightarrow> durable_id \<times> namespace" where
  "newUniqueId ns = (UniqueId (minted ns), ns\<lparr>minted := Suc (minted ns)\<rparr>)"

definition idFromName :: "namespace \<Rightarrow> string \<Rightarrow> durable_id" where
  "idFromName ns name = NameId name"

definition idFromString :: "namespace \<Rightarrow> string \<Rightarrow> js_error + durable_id" where
  "idFromString ns s =
     (if parses ns s then Inr (StringId s)
      else Inl (JsError ''TypeError'' ''Invalid Durable Object ID'' None))"

record handle =
  handle_id :: durable_id
  handle_options :: js_value
  handle_props :: "string \<rightharpoonup> js_value"

definition namespace_get :: "namespace \<Rightarrow> durable_id \<Rightarrow> js_value \<Rightarrow> handle" where
  "namespace_get ns i options =
     \<lparr> handle_id = i, handle_options = options, handle_props = stub_props ns \<rparr>"

text \<open>The \<open>id\<close> argument of the getter: left out, a string, or an identifier object.\<close>

datatype id_arg = IdMissing | IdString string | IdObject durable_id

text \<open>
  Function objects made by the resolver live in a heap: every evaluation of an arrow
  function allocates a new reference.  \<open>FetchForward i\<close> is
  \<open>(...args) => stub.fetch(...args)\<close> and \<open>Invoke i p\<close> is
  \<open>(...args) => stubFetch(obj, p, args)\<close>, for the handle of identifier \<open>i\<close>.
\<close>

datatype closure = FetchForward durable_id | Invoke durable_id string

record heap =
  next_ref :: nat
  closures :: "nat \<rightharpoonup> closure"

definition alloc :: "heap \<Rightarrow> closure \<Rightarrow> js_value \<times> heap" where
  "alloc H c =
     (VFun (next_ref H),
      H\<lparr>next_ref := Suc (next_ref H), closures := (closures H)(next_ref H \<mapsto> c)\<rparr>)"

text \<open>
  An object literal: its own properties in insertion order; \<open>p in o\<close> and \<open>o[p]\<close> also
  see what it inherits from \<open>Object.prototype\<close>.
\<close>

definition literal_has :: "platform \<Rightarrow> (string \<times> js_value) list \<Rightarrow> string \<Rightarrow> bool" where
  "literal_has P own p = (map_of own p \<noteq> None \<or> map_of (Object_prototype P) p \<noteq> None)"

definition literal_get :: "platform \<Rightarrow> (string \<times> js_value) list \<Rightarrow> string \<Rightarrow> js_value" where
  "literal_get P own p =
     (case map_of own p of
        Some v \<Rightarrow> v
      | None \<Rightarrow> (case map_of (Object_prototype P) p of Some v \<Rightarrow> v | None \<Rightarrow> VUndefined))"

text \<open>The proxy returned by the getter: its target and the \<open>methods\<close> table it closes over.\<close>

record proxy =
  target :: handle
  methods :: "(string \<times> js_value) list"

text \<open>
  The first statement of the getter: \<open>!id\<close> holds for a missing identifier and for the
  empty string.
\<close>

definition resolve_id :: "namespace \<Rightarrow> id_arg \<Rightarrow> (js_error + durable_id) \<times> namespace" where
  "resolve_id ns ida =
     (case ida of
        IdMissing \<Rightarrow> (case newUniqueId ns of (i, ns') \<Rightarrow> (Inr i, ns'))
      | IdString s \<Rightarrow>
          if s = [] then (case newUniqueId ns of (i, ns') \<Rightarrow> (Inr i, ns'))
          else if length s = 64 then (idFromString ns s, ns)
          else (Inr (idFromName ns s), ns)
      | IdObject i \<Rightarrow> (Inr i, ns))"

text \<open>The function that \<open>getDurableGet(namespace)\<close> returns, applied to \<open>(id, options)\<close>.\<close>

definition getDurableGet ::
  "namespace \<Rightarrow> id_arg \<Rightarrow> js_value \<Rightarrow> heap \<Rightarrow> (js_error + proxy) \<times> namespace \<times> heap" where
  "getDurableGet ns ida options H =
     (case resolve_id ns ida of
        (Inl err, ns') \<Rightarrow> (Inl err, ns', H)
      | (Inr i, ns') \<Rightarrow>
          (let stub = namespace_get ns' i options in
           case alloc H (FetchForward i) of
             (f, H') \<Rightarrow> (Inr \<lparr> target = stub, methods = [(''fetch'', f)] \<rparr>, ns', H')))"

text \<open>The proxy's \<open>get\<close> trap.\<close>

definition proxy_get :: "platform \<Rightarrow> proxy \<Rightarrow> string \<Rightarrow> heap \<Rightarrow> js_value \<times> proxy \<times> heap" where
  "proxy_get P px prop H =
     (if literal_has P (methods px) prop then (literal_get P (methods px) prop, px, H)
      else
        (case handle_props (target px) prop of
           Some v \<Rightarrow> (v, px, H)
         | None \<Rightarrow>
             (case alloc H (Invoke (handle_id (target px)) prop) of
                (f, H') \<Rightarrow> (f, px\<lparr>methods := methods px @ [(prop, f)]\<rparr>, H'))))"

text \<open>A run of property reads on one stub, the values dropped.\<close>

fun proxy_gets :: "platform \<Rightarrow> string list \<Rightarrow> proxy \<times> heap \<Rightarrow> proxy \<times> heap" where
  "proxy_gets P [] s = s"
| "proxy_gets P (p # ps) (px, H) =
     (case proxy_get P px p H of (v, px', H') \<Rightarrow> proxy_gets P ps (px', H'))"




text \<open>
  The identifier that the getter resolved, read off the returned stub, and the
  namespace after a run of getter calls.
\<close>

definition resolved :: "(js_error + proxy) \<times> namespace \<times> heap \<Rightarrow> js_error + durable_id" where
  "resolved r = (case fst r of Inl err \<Rightarrow> Inl err | Inr px \<Rightarrow> Inr (handle_id (target px)))"

fun resolve_ids :: "namespace \<Rightarrow> id_arg list \<Rightarrow> namespace" where
  "resolve_ids ns [] = ns"
| "resolve_ids ns (ida # idas) = resolve_ids (snd (resolve_id ns ida)) idas"

section \<open>The actor side: request router\<close>

text \<open>
  Header names compare without regard to ASCII case, and \<open>headers.get(name)\<close> joins the
  values of all entries of that name with a comma and a space.
\<close>

definition ascii_lower :: "char \<Rightarrow> char" where
  "ascii_lower c =
     (case map_of (zip ''ABCDEFGHIJKLMNOPQRSTUVWXYZ'' ''abcdefghijklmnopqrstuvwxyz'') c of
        Some l \<Rightarrow> l
      | None \<Rightarrow> c)"

definition headers_get :: "(string \<times> string) list \<Rightarrow> string \<Rightarrow> string option" where
  "headers_get hs name =
     (case map snd (filter (\<lambda>kv. map ascii_lower (fst kv) = map ascii_lower name) hs) of
        [] \<Rightarrow> None
      | v # vs \<Rightarrow> Some (foldl (\<lambda>a b. a @ '', '' @ b) v vs))"

text \<open>
  An object as the actor's initializer returns it: its own enumerable properties, in
  order, and the properties that a read \<open>o[p]\<close> finds besides them (inherited through
  the prototype chain, or own but not enumerable).
\<close>

record api_object =
  own_enumerable :: "(string \<times> js_value) list"
  other_props :: "(string \<times> js_value) list"

definition api_prop :: "api_object \<Rightarrow> string \<Rightarrow> js_value" where
  "api_prop api p =
     (case map_of (own_enumerable api) p of
        Some v \<Rightarrow> v
      | None \<Rightarrow> (case map_of (other_props api) p of Some v \<Rightarrow> v | None \<Rightarrow> VUndefined))"


text \<open>
  Modelled from the spec: the helpers of itty-router-extras, a dependency whose code is
  not in the repository.
  \<open>new_Response body init\<close> is the platform's \<open>new Response(body, {status, headers})\<close>;
  \<open>json\<close> serialises objects and passes anything else to \<open>new Response\<close>;
  \<open>error(status, content)\<close> is \<open>json({status, error: content}, {status})\<close>;
  \<open>StatusError\<close> is an \<open>Error\<close> with a \<open>status\<close>; \<open>withContent\<close> parses a JSON body
  into \<open>request.content\<close> and swallows every failure.
\<close>

definition new_Response ::
  "platform \<Rightarrow> js_value \<Rightarrow> nat \<Rightarrow> (string \<times> string) list \<Rightarrow> nat option \<Rightarrow> response" where
  "new_Response P body st hs ws =
     \<lparr> status = st,
       resp_headers = hs,
       resp_text =
         Inr (case body of VUndefined \<Rightarrow> [] | VNull \<Rightarrow> [] | VStr s \<Rightarrow> s | v \<Rightarrow> String_of P v),
       webSocket = ws \<rparr>"












text \<open>
  What \<open>createDurable(durable)(state, env)\<close> returns, for the \<open>api\<close> that the initializer
  produced: \<open>alarm\<close> and \<open>fetch\<close>.  The actor's own \<open>fetch\<close> returns a response or a
  promise by its type, so \<open>??\<close> falls through to the fixed error only when \<open>api.fetch\<close>
  is missing.
\<close>

record durable =
  alarm :: js_value
  durable_fetch :: "request \<Rightarrow> js_error + js_value"


section \<open>The tagged broadcast layer\<close>

text \<open>
  Modelled from the spec: the host's \<open>DurableObjectState\<close>, an external collaborator
  whose code is not in the repository, as far as the layer uses it: the accepted
  connections in order of acceptance, each with the tags it was accepted under; the
  attachment serialised onto a connection; the next fresh connection; and the
  \<open>send\<close> and \<open>close\<close> calls made on connections so far.
\<close>

datatype ws_event = Send nat js_value | Close nat

record ws_state =
  accepted :: "(nat \<times> string list) list"
  attachments :: "nat \<rightharpoonup> js_value"
  next_ws :: nat
  ws_events :: "ws_event list"

definition getWebSockets :: "ws_state \<Rightarrow> string option \<Rightarrow> nat list" where
  "getWebSockets st tag =
     (case tag of
        None \<Rightarrow> map fst (accepted st)
      | Some t \<Rightarrow> map fst (filter (\<lambda>w. t \<in> set (snd w)) (accepted st)))"

definition WebSocketPair :: "ws_state \<Rightarrow> (nat \<times> nat) \<times> ws_state" where
  "WebSocketPair st = ((next_ws st, Suc (next_ws st)), st\<lparr>next_ws := next_ws st + 2\<rparr>)"

definition acceptWebSocket :: "nat \<Rightarrow> string list \<Rightarrow> ws_state \<Rightarrow> ws_state" where
  "acceptWebSocket server tags st = st\<lparr>accepted := accepted st @ [(server, tags)]\<rparr>"

definition serializeAttachment :: "nat \<Rightarrow> js_value \<Rightarrow> ws_state \<Rightarrow> ws_state" where
  "serializeAttachment w v st = st\<lparr>attachments := (attachments st)(w \<mapsto> v)\<rparr>"

definition ws_send :: "js_value \<Rightarrow> nat \<Rightarrow> ws_state \<Rightarrow> ws_state" where
  "ws_send message w st = st\<lparr>ws_events := ws_events st @ [Send w message]\<rparr>"

definition ws_close :: "nat \<Rightarrow> ws_state \<Rightarrow> ws_state" where
  "ws_close w st = st\<lparr>ws_events := ws_events st @ [Close w]\<rparr>"

text \<open>The calls made on connections between an earlier state and a later one.\<close>

definition new_events :: "ws_state \<Rightarrow> ws_state \<Rightarrow> ws_event list" where
  "new_events st st' = drop (length (ws_events st)) (ws_events st')"

text \<open>The \<open>tags\<close> argument: the marker \<open>'all'\<close> or a list of tags.\<close>

datatype tag_sel = AllSockets | Tags "string list"

definition forEach :: "('a \<Rightarrow> 's \<Rightarrow> 's) \<Rightarrow> 'a list \<Rightarrow> 's \<Rightarrow> 's" where
  "forEach f xs st = fold f xs st"

definition flatMap :: "('a \<Rightarrow> 'b list) \<Rightarrow> 'a list \<Rightarrow> 'b list" where
  "flatMap f xs = concat (map f xs)"

definition sendTo :: "tag_sel \<Rightarrow> js_value \<Rightarrow> ws_state \<Rightarrow> ws_state" where
  "sendTo tags message st =
     forEach (ws_send message)
       (case tags of
          AllSockets \<Rightarrow> getWebSockets st None
        | Tags ts \<Rightarrow> flatMap (\<lambda>tag. getWebSockets st (Some tag)) ts)
       st"

definition close :: "tag_sel \<Rightarrow> ws_state \<Rightarrow> ws_state" where
  "close tags st =
     forEach ws_close
       (case tags of
          AllSockets \<Rightarrow> getWebSockets st None
        | Tags ts \<Rightarrow> flatMap (\<lambda>tag. getWebSockets st (Some tag)) ts)
       st"

text \<open>The connections that a \<open>tags\<close> argument resolves to, in the order they are visited.\<close>

definition targets :: "ws_state \<Rightarrow> tag_sel \<Rightarrow> nat list" where
  "targets st tags =
     (case tags of
        AllSockets \<Rightarrow> getWebSockets st None
      | Tags ts \<Rightarrow> flatMap (\<lambda>tag. getWebSockets st (Some tag)) ts)"

definition upgrade ::
  "platform \<Rightarrow> (request \<Rightarrow> string list option) \<Rightarrow> request \<Rightarrow> ws_state \<Rightarrow> response \<times> ws_state" where
  "upgrade P getTags request st =
     (let upgradeHeader = headers_get (req_headers request) ''Upgrade'' in
      if (upgradeHeader = None \<or> upgradeHeader = Some []) \<or> upgradeHeader \<noteq> Some ''websocket''
      then (new_Response P (VStr ''Expected Upgrade: websocket'') 426 [] None, st)
      else
        (case getTags request of
           None \<Rightarrow> (new_Response P (VStr ''Cannot Upgrade: Bad Request'') 400 [] None, st)
         | Some tags \<Rightarrow>
             (case WebSocketPair st of
                ((client, server), st1) \<Rightarrow>
                  (let st2 = acceptWebSocket server tags st1;
                       st3 = serializeAttachment server (VArr (map VStr tags)) st2
                   in (new_Response P VNull 101 [] (Some client), st3)))))"

text \<open>
  The object \<open>cws\<close> handed to the wrapped initializer, and \<open>durableWS\<close> itself: the
  initializer runs on \<open>cws\<close> and the state, and the result is spread into a new object
  literal, which copies the own enumerable properties and nothing else.
\<close>

record durable_ws =
  cws_sendTo :: "tag_sel \<Rightarrow> js_value \<Rightarrow> ws_state \<Rightarrow> ws_state"
  cws_close :: "tag_sel \<Rightarrow> ws_state \<Rightarrow> ws_state"
  cws_upgrade :: "(request \<Rightarrow> string list option) \<Rightarrow> request \<Rightarrow> ws_state \<Rightarrow> response \<times> ws_state"

definition durableWS ::
  "platform \<Rightarrow> (durable_ws \<Rightarrow> ws_state \<Rightarrow> api_object \<times> ws_state) \<Rightarrow> ws_state
     \<Rightarrow> api_object \<times> ws_state" where
  "durableWS P init st =
     (let cws = \<lparr> cws_sendTo = sendTo, cws_close = close, cws_upgrade = upgrade P \<rparr> in
      case init cws st of
        (api, st') \<Rightarrow>
          (\<lparr> own_enumerable = own_enumerable api, other_props = Object_prototype P \<rparr>, st'))"

section \<open>Sample inputs\<close>

text \<open>
  A small platform and a few inputs on which the model runs: a serialiser for the
  values that need no escaping, a parser for four literals, a URL parser that encodes
  spaces, and transports that fail a given number of times.
\<close>

fun show_nat :: "nat \<Rightarrow> string" where
  "show_nat n = (if n < 10 then [char_of (48 + n)] else show_nat (n div 10) @ [char_of (48 + n mod 10)])"

fun join_comma :: "string list \<Rightarrow> string" where
  "join_comma [] = []"
| "join_comma [x] = x"
| "join_comma (x # y # ys) = x @ '','' @ join_comma (y # ys)"

fun sample_show :: "js_value \<Rightarrow> string" where
  "sample_show (VBool b) = (if b then ''true'' else ''false'')"
| "sample_show (VNum n) = (if n < 0 then ''-'' @ show_nat (nat (- n)) else show_nat (nat n))"
| "sample_show (VStr s) = ''\"'' @ s @ ''\"''"
| "sample_show (VArr xs) = ''['' @ join_comma (map sample_show xs) @ '']''"
| "sample_show (VObj kvs) =
     ''{'' @ join_comma (map (\<lambda>kv. ''\"'' @ fst kv @ ''\":'' @ sample_show (snd kv)) kvs) @ ''}''"
| "sample_show v = ''null''"

definition sample_parse :: "string \<Rightarrow> js_error + js_value" where
  "sample_parse s =
     (if s = ''null'' then Inr VNull
      else if s = ''true'' then Inr (VBool True)
      else if s = ''false'' then Inr (VBool False)
      else if s = ''[]'' then Inr (VArr [])
      else Inl (JsError ''SyntaxError'' ''Unexpected token'' None))"

definition sample_platform :: platform where
  "sample_platform =
     \<lparr> JSON_stringify = (\<lambda>v. Inr (Some (sample_show v))),
       JSON_parse = sample_parse,
       String_of = sample_show,
       Object_prototype = [(''constructor'', VFun 0), (''toString'', VFun 1), (''valueOf'', VFun 2)],
       Request_of = (\<lambda>args. case args of
           [VReq r] \<Rightarrow> Inr r
         | _ \<Rightarrow> Inl (JsError ''TypeError'' ''Invalid URL'' None)),
       URL_href = (\<lambda>s. concat (map (\<lambda>c. if c = CHR '' '' then ''%20'' else [c]) s)),
       TypeError_for = (\<lambda>v. JsError ''TypeError'' (sample_show v @ '' is not a function or its return value is not iterable'') None) \<rparr>"

definition connection_lost :: js_error where
  "connection_lost = JsError ''Error'' ''Network connection lost.'' None"

definition not_found :: js_error where
  "not_found = JsError ''Error'' ''Not found'' None"

definition ok_response :: "string \<Rightarrow> response" where
  "ok_response body = \<lparr> status = 200, resp_headers = [], resp_text = Inr body, webSocket = None \<rparr>"

text \<open>A transport that rejects its first \<open>k\<close> calls with \<open>err\<close> and then answers \<open>true\<close>.\<close>

definition failing_first :: "nat \<Rightarrow> js_error \<Rightarrow> nat transport" where
  "failing_first k err h req = (if h < k then Inl err else Inr (ok_response ''true''), Suc h)"

text \<open>
  A namespace whose handles carry \<open>fetch\<close>, \<open>id\<close>, \<open>name\<close> and what they inherit from
  \<open>Object.prototype\<close>; a heap; and the stub that the getter returns for the name
  \<open>room\<close>.
\<close>

definition sample_namespace :: namespace where
  "sample_namespace =
     \<lparr> minted = 0,
       parses = (\<lambda>s. list_all (\<lambda>c. c \<in> set ''0123456789abcdef'') s),
       stub_props = map_of
         [(''fetch'', VFun 3), (''id'', VStr ''room-id''), (''name'', VStr ''room''),
          (''constructor'', VFun 0), (''toString'', VFun 1), (''valueOf'', VFun 2)] \<rparr>"

definition sample_heap :: heap where
  "sample_heap = \<lparr> next_ref = 10, closures = Map.empty \<rparr>"

definition sample_heap' :: heap where
  "sample_heap' = \<lparr> next_ref = 11, closures = [10 \<mapsto> FetchForward (NameId ''room'')] \<rparr>"

definition sample_stub :: proxy where
  "sample_stub =
     \<lparr> target = \<lparr> handle_id = NameId ''room'', handle_options = VUndefined,
                  handle_props = stub_props sample_namespace \<rparr>,
       methods = [(''fetch'', VFun 10)] \<rparr>"


text \<open>
  An actor with one method and one plain value; a call that answers 1; requests for a
  name the actor lacks and for a property that is not a function.
\<close>

definition sample_api :: api_object where
  "sample_api =
     \<lparr> own_enumerable = [(''increment'', VFun 20), (''counter'', VNum 0)],
       other_props = Object_prototype sample_platform \<rparr>"



text \<open>
  Four accepted connections: 1 under \<open>x\<close>, 2 under \<open>y\<close>, 3 under both, 4 under \<open>z\<close>; an upgrade
  request; a classifier that knows one room and refuses any other request; and
  an actor object whose handler is found only through its prototype.
\<close>

definition sample_state :: ws_state where
  "sample_state =
     \<lparr> accepted = [(1, [''x'']), (2, [''y'']), (3, [''x'', ''y'']), (4, [''z''])],
       attachments = Map.empty,
       next_ws = 5,
       ws_events = [] \<rparr>"

definition upgrade_request :: "string \<Rightarrow> string \<Rightarrow> request" where
  "upgrade_request u v =
     \<lparr> req_method = ''GET'', url = u, req_headers = [(''upgrade'', v)], req_body = None \<rparr>"

definition sample_getTags :: "request \<Rightarrow> string list option" where
  "sample_getTags request =
     (if url request = ''https://example.com/room/x'' then Some [''x'', ''room''] else None)"

definition prototype_actor :: api_object where
  "prototype_actor =
     \<lparr> own_enumerable = [(''count'', VNum 0)],
       other_props = [(''webSocketMessage'', VFun 21), (''fetch'', VFun 22)] \<rparr>"

text \<open>An initializer that returns a given object after a broadcast on \<open>cws\<close>.\<close>

definition sample_init :: "api_object \<Rightarrow> durable_ws \<Rightarrow> ws_state \<Rightarrow> api_object \<times> ws_state" where
  "sample_init api cws st = (api, cws_sendTo cws AllSockets (VStr ''ready'') st)"

section \<open>Properties of the retry policy and the wire codec\<close>

lemma shouldRetry_iff:
  "shouldRetry err n = (n \<le> 10 \<and> retryOn_test (error_toString err))"
  by (auto simp: shouldRetry_def maxRetries_def)

lemma stubFetch_retry_step:
  assumes "createRequest P m content = Inr req" "fetch h req = (Inl err, h')"
    "shouldRetry err n"
  shows "stubFetch P fetch m content n h =
     (case stubFetch P fetch m content (n + 1) h' of
        (result, events, h'') \<Rightarrow> (result, Fetch req # SetTimeout (2 ^ n * 10) # events, h''))"
  using assms by (subst stubFetch.simps) simp

lemma stubFetch_reject:
  assumes "createRequest P m content = Inr req" "fetch h req = (Inl err, h')"
    "\<not> shouldRetry err n"
  shows "stubFetch P fetch m content n h = (Rejected err, [Fetch req], h')"
  using assms by (subst stubFetch.simps) simp


lemma stubFetch_unsendable:
  assumes "createRequest P m content = Inl err"
  shows "stubFetch P fetch m content n h = (Rejected err, [], h)"
  using assms by (subst stubFetch.simps) simp


lemma stubFetch_timeouts:
  "\<exists>k. timeouts (fst (snd (stubFetch P fetch m content r h))) = map (\<lambda>n. 10 * 2 ^ n) [r ..< r + k]
      \<and> (r \<le> 11 \<longrightarrow> r + k \<le> 11)"
proof (induction P fetch m content r h rule: stubFetch.induct)
  case (1 P fetch m content retries h)
  show ?case
  proof (cases "createRequest P m content")
    case (Inl e)
    then show ?thesis
      by (intro exI[of _ 0]) (simp add: stubFetch_unsendable timeouts_def)
  next
    case (Inr req)
    obtain settled h' where f: "fetch h req = (settled, h')" by (cases "fetch h req")
    show ?thesis
    proof (cases "case settled of Inr resp \<Rightarrow> transformResponse P resp | Inl err \<Rightarrow> Inl err")
      case (Inr v)
      with \<open>createRequest P m content = Inr req\<close> f
      have "stubFetch P fetch m content retries h = (Resolved v, [Fetch req], h')"
        by (subst stubFetch.simps) simp
      then show ?thesis by (intro exI[of _ 0]) (simp add: timeouts_def)
    next
      case (Inl err)
      show ?thesis
      proof (cases "shouldRetry err retries")
        case False
        with Inl \<open>createRequest P m content = Inr req\<close> f
        have "stubFetch P fetch m content retries h = (Rejected err, [Fetch req], h')"
          by (subst stubFetch.simps) simp
        then show ?thesis by (intro exI[of _ 0]) (simp add: timeouts_def)
      next
        case True
        then have nn: "\<not> \<not> shouldRetry err retries" by simp
        from "1.IH"[OF \<open>createRequest P m content = Inr req\<close> f[symmetric] Inl nn]
        obtain k where k: "timeouts (fst (snd (stubFetch P fetch m content (retries + 1) h'))) =
            map (\<lambda>n. 10 * 2 ^ n) [retries + 1 ..< retries + 1 + k]"
            "retries + 1 \<le> 11 \<longrightarrow> retries + 1 + k \<le> 11" by auto
        from True have le: "retries \<le> 10" by (simp add: shouldRetry_iff)
        have "stubFetch P fetch m content retries h =
          (case stubFetch P fetch m content (retries + 1) h' of
            (result, events, h'') \<Rightarrow> (result, Fetch req # SetTimeout (2 ^ retries * 10) # events, h''))"
          using Inl \<open>createRequest P m content = Inr req\<close> f True
          by (subst stubFetch.simps) simp
        then have "timeouts (fst (snd (stubFetch P fetch m content retries h))) =
           (10 * 2 ^ retries) # timeouts (fst (snd (stubFetch P fetch m content (retries + 1) h')))"
          by (simp add: timeouts_def split: prod.splits)
        also have "\<dots> = map (\<lambda>n. 10 * 2 ^ n) [retries ..< retries + (k + 1)]"
          using k(1) by (simp add: upt_rec[of retries])
        finally show ?thesis using k(2) le by (intro exI[of _ "k + 1"]) simp
      qed
    qed
  qed
qed



text \<open>Facts about the sample inputs.\<close>

lemma connection_lost_transient: "retryOn_test (error_toString connection_lost)"
  by (simp add: connection_lost_def error_toString_def retryOn_test_def retryOn_def)

lemma not_found_permanent: "\<not> retryOn_test (error_toString not_found)"
  by (simp add: not_found_def error_toString_def retryOn_test_def retryOn_def)

lemma request_url_plain: "plain_name m \<Longrightarrow> request_url P m = ''https://durable/'' @ m"
  by (simp add: request_url_def URL_def)

lemma plain_add: "plain_name ''add''"
  by (simp add: plain_name_def)

lemma sample_createRequest:
  "plain_name m \<Longrightarrow> createRequest sample_platform m content =
     Inr \<lparr> req_method = ''POST'', url = ''https://durable/'' @ m,
           req_headers = [(''Content-Type'', ''application/json'')],
           req_body = Some (sample_show content) \<rparr>"
  by (simp add: createRequest_def sample_platform_def request_url_plain)

lemma failing_first_fails:
  "h < k \<Longrightarrow> failing_first k err h req = (Inl err, Suc h)"
  by (simp add: failing_first_def)

text \<open>
  C4.  Decoding a response never throws: \<open>transformResponse\<close> always returns a value.
  When the body text parses as JSON the parsed value is returned; when parsing fails
  the raw text is returned; when the text itself cannot be read the response object is
  returned unchanged.
\<close>

theorem transformResponse_never_throws:
  "(\<exists>v. transformResponse P r = Inr v) \<and>
   (\<forall>t v. resp_text r = Inr t \<and> JSON_parse P t = Inr v \<longrightarrow> transformResponse P r = Inr v) \<and>
   (\<forall>t e. resp_text r = Inr t \<and> JSON_parse P t = Inl e \<longrightarrow> transformResponse P r = Inr (VStr t)) \<and>
   (\<forall>e. resp_text r = Inl e \<longrightarrow> transformResponse P r = Inr (VResp r))"
  by (simp add: transformResponse_def split: sum.splits)

theorem transformResponse_never_throws_witness:
  "transformResponse sample_platform (ok_response ''true'') = Inr (VBool True) \<and>
   transformResponse sample_platform (ok_response ''ok'') = Inr (VStr ''ok'') \<and>
   transformResponse sample_platform ((ok_response [])\<lparr>resp_text := Inl not_found\<rparr>)
     = Inr (VResp ((ok_response [])\<lparr>resp_text := Inl not_found\<rparr>))"
proof -
  have a: "resp_text (ok_response ''true'') = Inr ''true'' \<and>
      JSON_parse sample_platform ''true'' = Inr (VBool True)"
    by (simp add: ok_response_def sample_platform_def sample_parse_def)
  have b: "resp_text (ok_response ''ok'') = Inr ''ok'' \<and>
      JSON_parse sample_platform ''ok'' = Inl (JsError ''SyntaxError'' ''Unexpected token'' None)"
    by (simp add: ok_response_def sample_platform_def sample_parse_def)
  have c: "resp_text ((ok_response [])\<lparr>resp_text := Inl not_found\<rparr>) = Inl not_found"
    by simp
  from transformResponse_never_throws[of sample_platform "ok_response ''true''"] a
  have 1: "transformResponse sample_platform (ok_response ''true'') = Inr (VBool True)" by blast
  from transformResponse_never_throws[of sample_platform "ok_response ''ok''"] b
  have 2: "transformResponse sample_platform (ok_response ''ok'') = Inr (VStr ''ok'')" by blast
  from transformResponse_never_throws[of sample_platform "(ok_response [])\<lparr>resp_text := Inl not_found\<rparr>"] c
  have 3: "transformResponse sample_platform ((ok_response [])\<lparr>resp_text := Inl not_found\<rparr>)
     = Inr (VResp ((ok_response [])\<lparr>resp_text := Inl not_found\<rparr>))" by blast
  from 1 2 3 show ?thesis by simp
qed

text \<open>
  C1.  For an error whose string form matches one of the transient patterns,
  \<open>shouldRetry\<close> returns true at every attempt count up to 10 and false from 11 on.
  When such an error rejects the request of attempt \<open>n \<le> 10\<close>, the call sets a timer of
  exactly \<open>10 * 2 ^ n\<close> milliseconds after that request and goes on with attempt
  \<open>n + 1\<close>; and the timers of any call that starts at attempt \<open>n\<close> are
  \<open>10 * 2 ^ n, 10 * 2 ^ (n + 1), ...\<close> in this order.
\<close>

theorem shouldRetry_transient_backoff:
  assumes "retryOn_test (error_toString err)"
  shows "(attemptCount \<le> 10 \<longrightarrow> shouldRetry err attemptCount) \<and>
    (11 \<le> attemptCount \<longrightarrow> \<not> shouldRetry err attemptCount) \<and>
    (\<forall>P fetch m content h req h'.
        createRequest P m content = Inr req \<and> fetch h req = (Inl err, h') \<and> attemptCount \<le> 10 \<longrightarrow>
        (\<exists>result events h''.
           stubFetch P fetch m content (Suc attemptCount) h' = (result, events, h'') \<and>
           stubFetch P fetch m content attemptCount h =
             (result, Fetch req # SetTimeout (10 * 2 ^ attemptCount) # events, h''))) \<and>
    (\<forall>P fetch m content h. \<exists>k.
        timeouts (fst (snd (stubFetch P fetch m content attemptCount h))) =
          map (\<lambda>n. 10 * 2 ^ n) [attemptCount ..< attemptCount + k])"
proof (intro conjI allI impI)
  show "shouldRetry err attemptCount" if "attemptCount \<le> 10"
    using that assms by (simp add: shouldRetry_iff)
  show "\<not> shouldRetry err attemptCount" if "11 \<le> attemptCount"
    using that by (simp add: shouldRetry_iff)
next
  fix P and fetch :: "'a transport" and m content h req h'
  assume a: "createRequest P m content = Inr req \<and> fetch h req = (Inl err, h') \<and> attemptCount \<le> 10"
  then have sr: "shouldRetry err attemptCount" using assms by (simp add: shouldRetry_iff)
  obtain result events h'' where
    r: "stubFetch P fetch m content (Suc attemptCount) h' = (result, events, h'')"
    by (cases "stubFetch P fetch m content (Suc attemptCount) h'") auto
  from a sr have "stubFetch P fetch m content attemptCount h =
     (case stubFetch P fetch m content (attemptCount + 1) h' of
        (result, events, h'') \<Rightarrow> (result, Fetch req # SetTimeout (2 ^ attemptCount * 10) # events, h''))"
    by (intro stubFetch_retry_step) auto
  with r have "stubFetch P fetch m content attemptCount h =
      (result, Fetch req # SetTimeout (10 * 2 ^ attemptCount) # events, h'')"
    by (simp add: mult.commute)
  with r show "\<exists>result events h''.
           stubFetch P fetch m content (Suc attemptCount) h' = (result, events, h'') \<and>
           stubFetch P fetch m content attemptCount h =
             (result, Fetch req # SetTimeout (10 * 2 ^ attemptCount) # events, h'')"
    by blast
next
  fix P and fetch :: "'b transport" and m content h
  from stubFetch_timeouts[of P fetch m content attemptCount h]
  show "\<exists>k. timeouts (fst (snd (stubFetch P fetch m content attemptCount h))) =
          map (\<lambda>n. 10 * 2 ^ n) [attemptCount ..< attemptCount + k]"
    by blast
qed

theorem shouldRetry_transient_backoff_witness:
  "shouldRetry connection_lost 10 \<and> \<not> shouldRetry connection_lost 11 \<and>
   (\<exists>result events h.
      stubFetch sample_platform (failing_first 20 connection_lost) ''add'' (VArr [VNum 1, VNum 2]) 3 3
      = (result,
         Fetch \<lparr> req_method = ''POST'', url = ''https://durable/add'',
           req_headers = [(''Content-Type'', ''application/json'')],
           req_body = Some (sample_show (VArr [VNum 1, VNum 2])) \<rparr> # SetTimeout 80 # events, h))"
proof -
  note w = shouldRetry_transient_backoff[OF connection_lost_transient]
  have a: "shouldRetry connection_lost 10"
    using w[of 10, THEN conjunct1] by simp
  have b: "\<not> shouldRetry connection_lost 11"
    using w[of 11, THEN conjunct2, THEN conjunct1] by simp
  let ?req = "\<lparr> req_method = ''POST'', url = ''https://durable/add'',
           req_headers = [(''Content-Type'', ''application/json'')],
           req_body = Some (sample_show (VArr [VNum 1, VNum 2])) \<rparr>"
  have h: "createRequest sample_platform ''add'' (VArr [VNum 1, VNum 2]) = Inr ?req \<and>
      failing_first 20 connection_lost 3 ?req = (Inl connection_lost, Suc 3) \<and> (3::nat) \<le> 10"
    by (simp add: sample_createRequest plain_add failing_first_fails)
  note step = w[of 3, THEN conjunct2, THEN conjunct2, THEN conjunct1, rule_format,
      where fetch = "failing_first 20 connection_lost" and h = 3 and P = sample_platform, OF h]
  then obtain result events h'' where
    "stubFetch sample_platform (failing_first 20 connection_lost) ''add'' (VArr [VNum 1, VNum 2]) 3 3 =
             (result, Fetch ?req # SetTimeout (10 * 2 ^ 3) # events, h'')"
    by (elim exE conjE)
  then have c: "\<exists>result events h.
           stubFetch sample_platform (failing_first 20 connection_lost) ''add'' (VArr [VNum 1, VNum 2]) 3 3 =
             (result, Fetch ?req # SetTimeout 80 # events, h)"
    by (intro exI[of _ result] exI[of _ events] exI[of _ h'']) simp
  from a b c show ?thesis by (intro conjI)
qed

text \<open>
  C5.  For an error whose string form matches no transient pattern, \<open>shouldRetry\<close>
  returns false at every attempt count; a call whose request is rejected with such an
  error sends nothing more, sets no timer, and rejects with that very error.
\<close>

theorem shouldRetry_permanent_rejects:
  assumes "\<not> retryOn_test (error_toString err)"
  shows "\<not> shouldRetry err attemptCount \<and>
    (\<forall>P fetch m content h req h'.
        createRequest P m content = Inr req \<and> fetch h req = (Inl err, h') \<longrightarrow>
        stubFetch P fetch m content attemptCount h = (Rejected err, [Fetch req], h'))"
proof -
  have n: "\<not> shouldRetry err attemptCount"
    using assms by (simp add: shouldRetry_iff)
  then show ?thesis
    by (auto intro: stubFetch_reject)
qed

theorem shouldRetry_permanent_rejects_witness:
  "\<not> shouldRetry not_found 0 \<and>
   stubFetch sample_platform (failing_first 1 not_found) ''add'' (VArr [VNum 1, VNum 2]) 0 0
      = (Rejected not_found,
         [Fetch \<lparr> req_method = ''POST'', url = ''https://durable/add'',
           req_headers = [(''Content-Type'', ''application/json'')],
           req_body = Some (sample_show (VArr [VNum 1, VNum 2])) \<rparr>], 1)"
proof -
  note w = shouldRetry_permanent_rejects[OF not_found_permanent, of 0]
  let ?req = "\<lparr> req_method = ''POST'', url = ''https://durable/add'',
           req_headers = [(''Content-Type'', ''application/json'')],
           req_body = Some (sample_show (VArr [VNum 1, VNum 2])) \<rparr>"
  have h: "createRequest sample_platform ''add'' (VArr [VNum 1, VNum 2]) = Inr ?req \<and>
      failing_first 1 not_found 0 ?req = (Inl not_found, Suc 0)"
    by (simp add: sample_createRequest plain_add failing_first_fails)
  note a = w[THEN conjunct1]
  note b = w[THEN conjunct2, rule_format,
      where fetch = "failing_first 1 not_found" and h = 0 and P = sample_platform, OF h]
  from a b show ?thesis by simp
qed

section \<open>Properties of the instance resolver and the stub proxy\<close>

lemma alloc_simps:
  "fst (alloc H c) = VFun (next_ref H)"
  "next_ref (snd (alloc H c)) = Suc (next_ref H)"
  "closures (snd (alloc H c)) = (closures H)(next_ref H \<mapsto> c)"
  by (simp_all add: alloc_def)

lemma proxy_get_cached:
  assumes "map_of (methods px) p = Some f"
  shows "proxy_get P px p H = (f, px, H)"
  using assms by (simp add: proxy_get_def literal_has_def literal_get_def)

lemma proxy_get_inherited:
  assumes "map_of (methods px) p = None" "map_of (Object_prototype P) p = Some u"
  shows "proxy_get P px p H = (u, px, H)"
  using assms by (simp add: proxy_get_def literal_has_def literal_get_def)

lemma proxy_get_native:
  assumes "map_of (methods px) p = None" "map_of (Object_prototype P) p = None"
    "handle_props (target px) p = Some v"
  shows "proxy_get P px p H = (v, px, H)"
  using assms by (simp add: proxy_get_def literal_has_def)


text \<open>What a property read keeps: the invariant of one step.\<close>

lemma proxy_get_step:
  assumes "proxy_get P px p H = (v, px', H')"
  shows "target px' = target px"
    and "next_ref H \<le> next_ref H'"
    and "\<And>r. r < next_ref H \<Longrightarrow> closures H' r = closures H r"
    and "\<And>q f. map_of (methods px) q = Some f \<Longrightarrow> map_of (methods px') q = Some f"
    and "\<And>q. map_of (methods px') q \<noteq> None \<Longrightarrow> map_of (methods px) q \<noteq> None \<or> (q = p \<and> handle_props (target px) q = None)"
  using assms
  by (auto simp: proxy_get_def alloc_def split: if_splits option.splits)

lemma proxy_gets_keep:
  assumes "proxy_gets P ps (px, H) = (px', H')"
  shows "target px' = target px \<and> next_ref H \<le> next_ref H' \<and>
    (\<forall>r. r < next_ref H \<longrightarrow> closures H' r = closures H r) \<and>
    (\<forall>q f. map_of (methods px) q = Some f \<longrightarrow> map_of (methods px') q = Some f) \<and>
    (\<forall>q. map_of (methods px') q \<noteq> None \<longrightarrow>
        map_of (methods px) q \<noteq> None \<or> (q \<in> set ps \<and> handle_props (target px) q = None))"
  using assms
proof (induction ps arbitrary: px H)
  case Nil
  then show ?case by simp
next
  case (Cons p ps)
  obtain v px1 H1 where g: "proxy_get P px p H = (v, px1, H1)"
    by (cases "proxy_get P px p H") auto
  with Cons.prems have r: "proxy_gets P ps (px1, H1) = (px', H')" by simp
  note s = proxy_get_step[OF g]
  note ih = Cons.IH[OF r]
  show ?case
  proof (intro conjI allI impI)
    show "target px' = target px" using ih s(1) by simp
    show "next_ref H \<le> next_ref H'" using ih s(2) by simp
    show "closures H' r = closures H r" if "r < next_ref H" for r
      using that ih s(2) s(3)[of r] by simp
    show "map_of (methods px') q = Some f" if "map_of (methods px) q = Some f" for q f
      using that ih s(4)[of q f] by blast
    show "map_of (methods px) q \<noteq> None \<or> (q \<in> set (p # ps) \<and> handle_props (target px) q = None)"
      if "map_of (methods px') q \<noteq> None" for q
    proof -
      from ih that have "map_of (methods px1) q \<noteq> None \<or> (q \<in> set ps \<and> handle_props (target px1) q = None)"
        by blast
      then show ?thesis using s(5)[of q] s(1) by auto
    qed
  qed
qed

lemma resolve_id_keeps:
  "stub_props (snd (resolve_id ns ida)) = stub_props ns"
  "parses (snd (resolve_id ns ida)) = parses ns"
  "minted ns \<le> minted (snd (resolve_id ns ida))"
  by (auto simp: resolve_id_def newUniqueId_def split: id_arg.splits)

lemma resolve_ids_minted: "minted ns \<le> minted (resolve_ids ns idas)"
proof (induction idas arbitrary: ns)
  case Nil
  then show ?case by simp
next
  case (Cons ida idas)
  have "minted ns \<le> minted (snd (resolve_id ns ida))" by (rule resolve_id_keeps)
  also have "\<dots> \<le> minted (resolve_ids (snd (resolve_id ns ida)) idas)" by (rule Cons.IH)
  finally show ?case by simp
qed

lemma resolve_id_mint:
  assumes "ida = IdMissing \<or> ida = IdString []"
  shows "resolve_id ns ida = (Inr (UniqueId (minted ns)), ns\<lparr>minted := Suc (minted ns)\<rparr>)"
  using assms by (auto simp: resolve_id_def newUniqueId_def)

lemma getDurableGet_fresh:
  assumes "getDurableGet ns ida options H0 = (Inr px0, ns', H0')"
  shows "\<exists>i. resolve_id ns ida = (Inr i, ns') \<and>
     px0 = \<lparr> target = \<lparr> handle_id = i, handle_options = options, handle_props = stub_props ns \<rparr>,
             methods = [(''fetch'', VFun (next_ref H0))] \<rparr> \<and>
     H0' = H0\<lparr>next_ref := Suc (next_ref H0),
              closures := (closures H0)(next_ref H0 \<mapsto> FetchForward i)\<rparr>"
proof -
  obtain r ns1 where r: "resolve_id ns ida = (r, ns1)" by (cases "resolve_id ns ida")
  with assms obtain i where i: "r = Inr i"
    by (cases r) (auto simp: getDurableGet_def)
  from resolve_id_keeps(1)[of ns ida] r have "stub_props ns1 = stub_props ns" by simp
  with assms r i show ?thesis
    by (auto simp: getDurableGet_def namespace_get_def alloc_def Let_def)
qed

lemma getDurableGet_resolved:
  "resolved (getDurableGet ns ida options H) = fst (resolve_id ns ida)"
  "fst (snd (getDurableGet ns ida options H)) = snd (resolve_id ns ida)"
  by (auto simp: resolved_def getDurableGet_def namespace_get_def alloc_def Let_def
      split: prod.splits sum.splits)

lemma fresh_stub_reads:
  assumes g: "getDurableGet ns ida options H0 = (Inr px0, ns', H0')"
    and r: "proxy_gets P qs (px0, H0') = (px, H)"
  shows "target px = target px0"
    and "handle_props (target px0) = stub_props ns"
    and "map_of (methods px) ''fetch'' = Some (VFun (next_ref H0))"
    and "closures H (next_ref H0) = Some (FetchForward (handle_id (target px0)))"
    and "\<And>q. map_of (methods px) q \<noteq> None \<Longrightarrow>
           q = ''fetch'' \<or> (q \<in> set qs \<and> stub_props ns q = None)"
proof -
  from getDurableGet_fresh[OF g] obtain i where
    px0: "px0 = \<lparr> target = \<lparr> handle_id = i, handle_options = options, handle_props = stub_props ns \<rparr>,
             methods = [(''fetch'', VFun (next_ref H0))] \<rparr>"
    and H0': "H0' = H0\<lparr>next_ref := Suc (next_ref H0),
              closures := (closures H0)(next_ref H0 \<mapsto> FetchForward i)\<rparr>"
    by blast
  note k = proxy_gets_keep[OF r]
  show "target px = target px0" using k by blast
  show "handle_props (target px0) = stub_props ns" using px0 by simp
  have "map_of (methods px0) ''fetch'' = Some (VFun (next_ref H0))" using px0 by simp
  with k show "map_of (methods px) ''fetch'' = Some (VFun (next_ref H0))" by blast
  have "next_ref H0 < next_ref H0'" using H0' by simp
  with k have "closures H (next_ref H0) = closures H0' (next_ref H0)" by blast
  then show "closures H (next_ref H0) = Some (FetchForward (handle_id (target px0)))"
    using H0' px0 by simp
  show "q = ''fetch'' \<or> (q \<in> set qs \<and> stub_props ns q = None)"
    if "map_of (methods px) q \<noteq> None" for q
  proof -
    from k that have "map_of (methods px0) q \<noteq> None \<or>
        (q \<in> set qs \<and> handle_props (target px0) q = None)" by blast
    then show ?thesis using px0 by (auto split: if_splits)
  qed
qed

lemma sample_getDurableGet:
  "getDurableGet sample_namespace (IdString ''room'') VUndefined sample_heap =
     (Inr sample_stub, sample_namespace, sample_heap')"
  by (simp add: getDurableGet_def resolve_id_def idFromName_def namespace_get_def alloc_def
      sample_stub_def sample_heap_def sample_heap'_def)




text \<open>
  C7 (as amended).  The identifier of the returned stub is the one the first statement
  of the getter resolves.  With no identifier, and also with the empty string, the
  getter mints a new unique identifier, different from every one minted by a later
  call.  A non-empty string of length 64 is parsed with \<open>idFromString\<close>; a non-empty string
  of any other length is derived with \<open>idFromName\<close>, the same identifier every time; an
  identifier object is used as it is.
\<close>

theorem getDurableGet_identifier:
  "resolved (getDurableGet ns ida options H) = fst (resolve_id ns ida) \<and>
   fst (snd (getDurableGet ns ida options H)) = snd (resolve_id ns ida) \<and>
   (ida = IdMissing \<or> ida = IdString [] \<longrightarrow>
      resolve_id ns ida = (Inr (UniqueId (minted ns)), ns\<lparr>minted := Suc (minted ns)\<rparr>) \<and>
      (\<forall>idas later. later = IdMissing \<or> later = IdString [] \<longrightarrow>
         fst (resolve_id (resolve_ids (snd (resolve_id ns ida)) idas) later) \<noteq> fst (resolve_id ns ida))) \<and>
   (\<forall>s. ida = IdString s \<and> s \<noteq> [] \<and> length s = 64 \<longrightarrow>
      resolve_id ns ida = (idFromString ns s, ns)) \<and>
   (\<forall>s. ida = IdString s \<and> s \<noteq> [] \<and> length s \<noteq> 64 \<longrightarrow>
      resolve_id ns ida = (Inr (idFromName ns s), ns) \<and>
      (\<forall>ns2. fst (resolve_id ns2 ida) = fst (resolve_id ns ida))) \<and>
   (\<forall>i. ida = IdObject i \<longrightarrow> resolve_id ns ida = (Inr i, ns))"
proof (intro conjI allI impI)
  show "resolved (getDurableGet ns ida options H) = fst (resolve_id ns ida)"
    by (rule getDurableGet_resolved)
  show "fst (snd (getDurableGet ns ida options H)) = snd (resolve_id ns ida)"
    by (rule getDurableGet_resolved)
next
  assume a: "ida = IdMissing \<or> ida = IdString []"
  then show "resolve_id ns ida = (Inr (UniqueId (minted ns)), ns\<lparr>minted := Suc (minted ns)\<rparr>)"
    by (rule resolve_id_mint)
next
  fix idas later
  assume a: "ida = IdMissing \<or> ida = IdString []"
    and l: "later = IdMissing \<or> later = IdString []"
  let ?ns2 = "resolve_ids (snd (resolve_id ns ida)) idas"
  have "Suc (minted ns) \<le> minted ?ns2"
    using resolve_ids_minted[of "snd (resolve_id ns ida)" idas] resolve_id_mint[OF a, of ns]
    by simp
  moreover have "fst (resolve_id ?ns2 later) = Inr (UniqueId (minted ?ns2))"
    using resolve_id_mint[OF l, of ?ns2] by simp
  moreover have "fst (resolve_id ns ida) = Inr (UniqueId (minted ns))"
    using resolve_id_mint[OF a, of ns] by simp
  ultimately show "fst (resolve_id ?ns2 later) \<noteq> fst (resolve_id ns ida)"
    by simp
next
  fix s assume "ida = IdString s \<and> s \<noteq> [] \<and> length s = 64"
  then show "resolve_id ns ida = (idFromString ns s, ns)"
    by (simp add: resolve_id_def)
next
  fix s assume "ida = IdString s \<and> s \<noteq> [] \<and> length s \<noteq> 64"
  then show "resolve_id ns ida = (Inr (idFromName ns s), ns)"
    by (simp add: resolve_id_def)
next
  fix s ns2 assume "ida = IdString s \<and> s \<noteq> [] \<and> length s \<noteq> 64"
  then show "fst (resolve_id ns2 ida) = fst (resolve_id ns ida)"
    by (simp add: resolve_id_def idFromName_def)
next
  fix i assume "ida = IdObject i"
  then show "resolve_id ns ida = (Inr i, ns)"
    by (simp add: resolve_id_def)
qed

text \<open>
  The empty string is a string of length other than 64, yet it is not treated as a
  name: it mints a unique identifier.
\<close>

theorem empty_string_not_a_name:
  "length ([] :: string) \<noteq> 64 \<and>
   resolved (getDurableGet sample_namespace (IdString []) VUndefined sample_heap) = Inr (UniqueId 0) \<and>
   resolved (getDurableGet sample_namespace (IdString []) VUndefined sample_heap)
     \<noteq> Inr (idFromName sample_namespace [])"
  by (simp add: getDurableGet_resolved resolve_id_def newUniqueId_def idFromName_def
      sample_namespace_def)

theorem getDurableGet_identifier_witness:
  "resolved (getDurableGet sample_namespace IdMissing VUndefined sample_heap) = Inr (UniqueId 0) \<and>
   resolved (getDurableGet
      (resolve_ids (fst (snd (getDurableGet sample_namespace IdMissing VUndefined sample_heap)))
         [IdString ''room'', IdMissing])
      IdMissing VUndefined sample_heap) \<noteq> Inr (UniqueId 0) \<and>
   resolved (getDurableGet sample_namespace (IdString ''room'') VUndefined sample_heap) = Inr (NameId ''room'') \<and>
   resolved (getDurableGet sample_namespace
      (IdString ''0123456789abcdef0123456789abcdef0123456789abcdef0123456789abcdef'') VUndefined sample_heap)
     = Inr (StringId ''0123456789abcdef0123456789abcdef0123456789abcdef0123456789abcdef'') \<and>
   resolved (getDurableGet sample_namespace (IdObject (UniqueId 7)) VUndefined sample_heap) = Inr (UniqueId 7)"
proof -
  let ?hex = "''0123456789abcdef0123456789abcdef0123456789abcdef0123456789abcdef''"
  note t = getDurableGet_identifier[where options = VUndefined and H = sample_heap]
  note m = t[of sample_namespace IdMissing]
  have m0: "IdMissing = IdMissing \<or> IdMissing = IdString []" by simp
  from m have m1: "resolved (getDurableGet sample_namespace IdMissing VUndefined sample_heap)
      = fst (resolve_id sample_namespace IdMissing)" by (elim conjE)
  from m have m2: "fst (snd (getDurableGet sample_namespace IdMissing VUndefined sample_heap))
      = snd (resolve_id sample_namespace IdMissing)" by (elim conjE)
  note m3 = m[THEN conjunct2, THEN conjunct2, THEN conjunct1, rule_format, OF m0]
  have a: "resolved (getDurableGet sample_namespace IdMissing VUndefined sample_heap) = Inr (UniqueId 0)"
    using m1 m3[THEN conjunct1] by (simp add: sample_namespace_def)
  note m4 = m3[THEN conjunct2, rule_format, of IdMissing "[IdString ''room'', IdMissing]", OF m0]
  let ?ns2 = "resolve_ids (fst (snd (getDurableGet sample_namespace IdMissing VUndefined sample_heap)))
         [IdString ''room'', IdMissing]"
  have "resolved (getDurableGet ?ns2 IdMissing VUndefined sample_heap) = fst (resolve_id ?ns2 IdMissing)"
    using t[of ?ns2 IdMissing] by (elim conjE)
  with m4 m2 m1 a have b: "resolved (getDurableGet ?ns2 IdMissing VUndefined sample_heap) \<noteq> Inr (UniqueId 0)"
    by simp
  note r = t[of sample_namespace "IdString ''room''"]
  have r0: "IdString ''room'' = IdString ''room'' \<and> ''room'' \<noteq> [] \<and> length ''room'' \<noteq> 64" by simp
  from r have r1: "resolved (getDurableGet sample_namespace (IdString ''room'') VUndefined sample_heap)
      = fst (resolve_id sample_namespace (IdString ''room''))" by (elim conjE)
  note r2 = r[THEN conjunct2, THEN conjunct2, THEN conjunct2, THEN conjunct2, THEN conjunct1, rule_format, OF r0]
  have c: "resolved (getDurableGet sample_namespace (IdString ''room'') VUndefined sample_heap) = Inr (NameId ''room'')"
    using r1 r2[THEN conjunct1] by (simp add: idFromName_def)
  note x = t[of sample_namespace "IdString ?hex"]
  have x0: "IdString ?hex = IdString ?hex \<and> ?hex \<noteq> [] \<and> length ?hex = 64" by simp
  from x have x1: "resolved (getDurableGet sample_namespace (IdString ?hex) VUndefined sample_heap)
      = fst (resolve_id sample_namespace (IdString ?hex))" by (elim conjE)
  note x2 = x[THEN conjunct2, THEN conjunct2, THEN conjunct2, THEN conjunct1, rule_format, OF x0]
  have d: "resolved (getDurableGet sample_namespace (IdString ?hex) VUndefined sample_heap) = Inr (StringId ?hex)"
    using x1 x2 by (simp add: idFromString_def sample_namespace_def)
  note o = t[of sample_namespace "IdObject (UniqueId 7)"]
  from o have o1: "resolved (getDurableGet sample_namespace (IdObject (UniqueId 7)) VUndefined sample_heap)
      = fst (resolve_id sample_namespace (IdObject (UniqueId 7)))" by (elim conjE)
  note o2 = o[THEN conjunct2, THEN conjunct2, THEN conjunct2, THEN conjunct2, THEN conjunct2, rule_format, OF refl]
  have e: "resolved (getDurableGet sample_namespace (IdObject (UniqueId 7)) VUndefined sample_heap) = Inr (UniqueId 7)"
    using o1 o2 by simp
  from a b c d e show ?thesis by (intro conjI)
qed

text \<open>
  C3 (as amended).  On a stub returned by the getter, after any property reads, a
  property \<open>p\<close> present on the handle reads as follows.  When \<open>p\<close> is neither \<open>fetch\<close> nor
  a name that object literals inherit from \<open>Object.prototype\<close>, \<open>stub.p\<close> is the handle's
  own value and nothing changes.  When \<open>p\<close> is inherited by object literals, \<open>stub.p\<close> is
  the value on \<open>Object.prototype\<close>.  And \<open>stub.fetch\<close> is the forwarding function that
  the getter created for this stub, not the handle's own \<open>fetch\<close>.
\<close>

theorem stub_native_property:
  assumes "getDurableGet ns ida options H0 = (Inr px0, ns', H0')"
    and "proxy_gets P qs (px0, H0') = (px, H)"
    and "handle_props (target px0) p = Some v"
  shows "(p \<noteq> ''fetch'' \<and> map_of (Object_prototype P) p = None \<longrightarrow>
            proxy_get P px p H = (v, px, H)) \<and>
         (p \<noteq> ''fetch'' \<longrightarrow>
            (\<forall>u. map_of (Object_prototype P) p = Some u \<longrightarrow> proxy_get P px p H = (u, px, H))) \<and>
         (p = ''fetch'' \<longrightarrow>
            proxy_get P px p H = (VFun (next_ref H0), px, H) \<and>
            closures H (next_ref H0) = Some (FetchForward (handle_id (target px0))))"
proof -
  note f = fresh_stub_reads[OF assms(1,2)]
  from assms(3) f(2) have present: "stub_props ns p = Some v" by simp
  have uncached: "map_of (methods px) p = None" if "p \<noteq> ''fetch''"
  proof (cases "map_of (methods px) p")
    case None
    then show ?thesis .
  next
    case (Some y)
    then have "map_of (methods px) p \<noteq> None" by simp
    from f(5)[OF this] that present show ?thesis by simp
  qed
  have native: "handle_props (target px) p = Some v"
    using f(1) assms(3) by simp
  show ?thesis
  proof (intro conjI impI allI)
    assume "p \<noteq> ''fetch'' \<and> map_of (Object_prototype P) p = None"
    then show "proxy_get P px p H = (v, px, H)"
      using uncached native by (simp add: proxy_get_native)
  next
    fix u assume "p \<noteq> ''fetch''" "map_of (Object_prototype P) p = Some u"
    then show "proxy_get P px p H = (u, px, H)"
      using uncached by (simp add: proxy_get_inherited)
  next
    assume "p = ''fetch''"
    then show "proxy_get P px p H = (VFun (next_ref H0), px, H)"
      using f(3) by (simp add: proxy_get_cached)
  next
    show "closures H (next_ref H0) = Some (FetchForward (handle_id (target px0)))"
      by (rule f(4))
  qed
qed

text \<open>
  Reading \<open>fetch\<close> on the sample stub gives the function object that the getter made,
  not the handle's own \<open>fetch\<close>.
\<close>

theorem stub_fetch_is_a_wrapper:
  "handle_props (target sample_stub) ''fetch'' = Some (VFun 3) \<and>
   fst (proxy_get sample_platform sample_stub ''fetch'' sample_heap') = VFun 10 \<and>
   fst (proxy_get sample_platform sample_stub ''fetch'' sample_heap') \<noteq> VFun 3 \<and>
   closures sample_heap' 10 = Some (FetchForward (NameId ''room''))"
  by (simp add: proxy_get_def literal_has_def literal_get_def sample_stub_def sample_heap'_def
      sample_namespace_def)

theorem stub_native_property_witness:
  "proxy_get sample_platform sample_stub ''name'' sample_heap' = (VStr ''room'', sample_stub, sample_heap') \<and>
   proxy_get sample_platform sample_stub ''toString'' sample_heap' = (VFun 1, sample_stub, sample_heap') \<and>
   proxy_get sample_platform sample_stub ''fetch'' sample_heap' = (VFun 10, sample_stub, sample_heap')"
proof -
  have r: "proxy_gets sample_platform [] (sample_stub, sample_heap') = (sample_stub, sample_heap')"
    by simp
  note t = stub_native_property[OF sample_getDurableGet r]
  have n: "handle_props (target sample_stub) ''name'' = Some (VStr ''room'')"
    by (simp add: sample_stub_def sample_namespace_def)
  have n': "''name'' \<noteq> ''fetch'' \<and> map_of (Object_prototype sample_platform) ''name'' = None"
    by (simp add: sample_platform_def)
  note a = t[OF n, THEN conjunct1, rule_format, OF n']
  have s: "handle_props (target sample_stub) ''toString'' = Some (VFun 1)"
    by (simp add: sample_stub_def sample_namespace_def)
  have s1: "''toString'' \<noteq> ''fetch''" by simp
  have s2: "map_of (Object_prototype sample_platform) ''toString'' = Some (VFun 1)"
    by (simp add: sample_platform_def)
  note b = t[OF s, THEN conjunct2, THEN conjunct1, rule_format, OF s1 s2]
  have f: "handle_props (target sample_stub) ''fetch'' = Some (VFun 3)"
    by (simp add: sample_stub_def sample_namespace_def)
  note c = t[OF f, THEN conjunct2, THEN conjunct2, rule_format, OF refl, THEN conjunct1]
  have h: "next_ref sample_heap = 10" by (simp add: sample_heap_def)
  from a b c h show ?thesis by simp
qed




section \<open>Properties of the request router\<close>









section \<open>Properties of the tagged broadcast layer\<close>

lemma forEach_ws_send:
  "forEach (ws_send message) ws st = st\<lparr>ws_events := ws_events st @ map (\<lambda>w. Send w message) ws\<rparr>"
  unfolding forEach_def
  by (induction ws arbitrary: st) (simp_all add: ws_send_def)

lemma forEach_ws_close:
  "forEach ws_close ws st = st\<lparr>ws_events := ws_events st @ map Close ws\<rparr>"
  unfolding forEach_def
  by (induction ws arbitrary: st) (simp_all add: ws_close_def)

lemma sendTo_events:
  "sendTo tags message st = st\<lparr>ws_events := ws_events st @ map (\<lambda>w. Send w message) (targets st tags)\<rparr>"
  by (simp add: sendTo_def forEach_ws_send targets_def)

lemma close_events:
  "close tags st = st\<lparr>ws_events := ws_events st @ map Close (targets st tags)\<rparr>"
  by (simp add: close_def forEach_ws_close targets_def)

lemma new_events_sendTo:
  "new_events st (sendTo tags message st) = map (\<lambda>w. Send w message) (targets st tags)"
  by (simp add: new_events_def sendTo_events)

lemma new_events_close:
  "new_events st (close tags st) = map Close (targets st tags)"
  by (simp add: new_events_def close_events)

lemma set_targets_Tags:
  "set (targets st (Tags ts)) =
     {w. \<exists>tags t. (w, tags) \<in> set (accepted st) \<and> t \<in> set ts \<and> t \<in> set tags}"
  by (auto simp: targets_def flatMap_def getWebSockets_def) force+

lemma count_filter_distinct:
  assumes "distinct (map fst xs)" "(w, tags) \<in> set xs"
  shows "count_list (map fst (filter Q xs)) w = (if Q (w, tags) then 1 else 0)"
  using assms
proof (induction xs)
  case Nil
  then show ?case by simp
next
  case (Cons x xs)
  show ?case
  proof (cases "x = (w, tags)")
    case True
    with Cons.prems have "w \<notin> fst ` set xs" by auto
    then have "count_list (map fst (filter Q xs)) w = 0"
      by (auto simp: count_list_0_iff)
    with True show ?thesis by simp
  next
    case False
    with Cons.prems have in_xs: "(w, tags) \<in> set xs" and d: "distinct (map fst xs)" by auto
    with Cons.prems have "fst x \<noteq> w" by (auto simp: image_iff)
    with Cons.IH[OF d in_xs] show ?thesis by simp
  qed
qed

lemma count_targets_Tags:
  assumes "distinct (map fst (accepted st))" "(w, tags) \<in> set (accepted st)"
  shows "count_list (targets st (Tags ts)) w = length (filter (\<lambda>t. t \<in> set tags) ts)"
proof (induction ts)
  case Nil
  then show ?case by (simp add: targets_def flatMap_def)
next
  case (Cons t ts)
  have "count_list (targets st (Tags (t # ts))) w =
      count_list (getWebSockets st (Some t)) w + count_list (targets st (Tags ts)) w"
    by (simp add: targets_def flatMap_def)
  moreover have "count_list (getWebSockets st (Some t)) w = (if t \<in> set tags then 1 else 0)"
    using count_filter_distinct[OF assms, of "\<lambda>w. t \<in> set (snd w)"]
    by (simp add: getWebSockets_def)
  ultimately show ?case using Cons.IH by simp
qed

lemma count_targets_All:
  assumes "distinct (map fst (accepted st))" "(w, tags) \<in> set (accepted st)"
  shows "count_list (targets st AllSockets) w = 1"
  using count_filter_distinct[OF assms, of "\<lambda>w. True"]
  by (simp add: targets_def getWebSockets_def)

lemma count_new_events_send:
  "count_list (map (\<lambda>w. Send w message) ws) (Send w message) = count_list ws w"
  by (induction ws) auto

lemma count_new_events_close:
  "count_list (map Close ws) (Close w) = count_list ws w"
  by (induction ws) auto

lemma sample_targets:
  "targets sample_state (Tags [''x'', ''y'']) = [1, 3, 2, 3]"
  "targets sample_state AllSockets = [1, 2, 3, 4]"
  by (simp_all add: targets_def flatMap_def getWebSockets_def sample_state_def)

lemma upgrade_refused:
  assumes "headers_get (req_headers request) ''Upgrade'' \<noteq> Some ''websocket''"
  shows "upgrade P getTags request st =
     (new_Response P (VStr ''Expected Upgrade: websocket'') 426 [] None, st)"
  using assms by (simp add: upgrade_def Let_def)

lemma upgrade_unclassified:
  assumes "headers_get (req_headers request) ''Upgrade'' = Some ''websocket''"
    "getTags request = None"
  shows "upgrade P getTags request st =
     (new_Response P (VStr ''Cannot Upgrade: Bad Request'') 400 [] None, st)"
  using assms by (simp add: upgrade_def Let_def)

lemma upgrade_accepted:
  assumes "headers_get (req_headers request) ''Upgrade'' = Some ''websocket''"
    "getTags request = Some tags"
  shows "upgrade P getTags request st =
     (new_Response P VNull 101 [] (Some (next_ws st)),
      st\<lparr>next_ws := next_ws st + 2,
         accepted := accepted st @ [(Suc (next_ws st), tags)],
         attachments := (attachments st)(Suc (next_ws st) \<mapsto> VArr (map VStr tags))\<rparr>)"
  using assms
  by (simp add: upgrade_def Let_def WebSocketPair_def acceptWebSocket_def serializeAttachment_def)

lemma sample_upgrade_header:
  "headers_get (req_headers (upgrade_request u v)) ''Upgrade'' = Some v"
  by (simp add: upgrade_request_def headers_get_def ascii_lower_def)

text \<open>
  What \<open>sendTo\<close> and \<open>close\<close> do in general: one \<open>send\<close>, or one \<open>close\<close>, for every
  entry of the resolved list.  For a tag list the connections in that list are exactly
  those accepted under at least one of the tags; the list holds a connection once for
  each position of the tag list that is one of its tags.  For \<open>'all'\<close> the list holds
  every accepted connection once.
\<close>

lemma sendTo_close_visits:
  "new_events st (sendTo sel message st) = map (\<lambda>w. Send w message) (targets st sel) \<and>
    new_events st (close sel st) = map Close (targets st sel) \<and>
    set (targets st (Tags ts)) =
      {w. \<exists>tags t. (w, tags) \<in> set (accepted st) \<and> t \<in> set ts \<and> t \<in> set tags} \<and>
    set (targets st AllSockets) = fst ` set (accepted st) \<and>
    (\<forall>w tags. distinct (map fst (accepted st)) \<and> (w, tags) \<in> set (accepted st) \<longrightarrow>
       count_list (new_events st (sendTo (Tags ts) message st)) (Send w message)
         = length (filter (\<lambda>t. t \<in> set tags) ts) \<and>
       count_list (new_events st (close (Tags ts) st)) (Close w)
         = length (filter (\<lambda>t. t \<in> set tags) ts) \<and>
       count_list (new_events st (sendTo AllSockets message st)) (Send w message) = 1 \<and>
       count_list (new_events st (close AllSockets st)) (Close w) = 1) \<and>
    accepted (sendTo sel message st) = accepted st \<and>
    accepted (close sel st) = accepted st"
proof (intro conjI allI impI)
  show "new_events st (sendTo sel message st) = map (\<lambda>w. Send w message) (targets st sel)"
    by (rule new_events_sendTo)
  show "new_events st (close sel st) = map Close (targets st sel)"
    by (rule new_events_close)
  show "set (targets st (Tags ts)) =
      {w. \<exists>tags t. (w, tags) \<in> set (accepted st) \<and> t \<in> set ts \<and> t \<in> set tags}"
    by (rule set_targets_Tags)
  show "set (targets st AllSockets) = fst ` set (accepted st)"
    by (simp add: targets_def getWebSockets_def)
  show "accepted (sendTo sel message st) = accepted st"
    by (simp add: sendTo_events)
  show "accepted (close sel st) = accepted st"
    by (simp add: close_events)
next
  fix w tags assume "distinct (map fst (accepted st)) \<and> (w, tags) \<in> set (accepted st)"
  then have assms: "distinct (map fst (accepted st))" and m: "(w, tags) \<in> set (accepted st)"
    by simp_all
  show "count_list (new_events st (sendTo (Tags ts) message st)) (Send w message)
         = length (filter (\<lambda>t. t \<in> set tags) ts)"
    by (simp add: new_events_sendTo count_new_events_send count_targets_Tags[OF assms m])
  show "count_list (new_events st (close (Tags ts) st)) (Close w)
         = length (filter (\<lambda>t. t \<in> set tags) ts)"
    by (simp add: new_events_close count_new_events_close count_targets_Tags[OF assms m])
  show "count_list (new_events st (sendTo AllSockets message st)) (Send w message) = 1"
    by (simp add: new_events_sendTo count_new_events_send count_targets_All[OF assms m])
  show "count_list (new_events st (close AllSockets st)) (Close w) = 1"
    by (simp add: new_events_close count_new_events_close count_targets_All[OF assms m])
qed

text \<open>
  C2.  The claim: \<open>sendTo(['x', 'y'], msg)\<close> delivers \<open>msg\<close> to the union of the
  connections tagged \<open>x\<close> or \<open>y\<close>, one send per connection, and \<open>close\<close> likewise.
  The code does not: \<open>flatMap\<close> joins the lists of the two tags without removing
  duplicates, so connection 3 of the sample state, accepted under both \<open>x\<close> and \<open>y\<close>,
  is sent the message twice and closed twice, while \<open>sendTo('all', msg)\<close> sends to it
  once.
\<close>

theorem sendTo_both_tags_twice:
  "new_events sample_state (sendTo (Tags [''x'', ''y'']) (VStr ''hi'') sample_state) =
     [Send 1 (VStr ''hi''), Send 3 (VStr ''hi''), Send 2 (VStr ''hi''), Send 3 (VStr ''hi'')] \<and>
   count_list (new_events sample_state (sendTo (Tags [''x'', ''y'']) (VStr ''hi'') sample_state))
     (Send 3 (VStr ''hi'')) = 2 \<and>
   new_events sample_state (close (Tags [''x'', ''y'']) sample_state) =
     [Close 1, Close 3, Close 2, Close 3] \<and>
   new_events sample_state (sendTo AllSockets (VStr ''hi'') sample_state) =
     [Send 1 (VStr ''hi''), Send 2 (VStr ''hi''), Send 3 (VStr ''hi''), Send 4 (VStr ''hi'')]"
  by (simp add: new_events_sendTo new_events_close sample_targets)

text \<open>
  C8.  The upgrade handler answers 426, and leaves the state alone, for every request
  whose \<open>Upgrade\<close> header is not \<open>websocket\<close>.  For an upgrading request on which the
  classifier returns null it answers 400 and accepts nothing.  Otherwise it answers
  101 with the client end of a new pair, accepts the server end under exactly the
  tags the classifier returned, and serialises that tag list onto it; no message is
  sent.
\<close>

theorem upgrade_handler:
  "(headers_get (req_headers request) ''Upgrade'' \<noteq> Some ''websocket'' \<longrightarrow>
      status (fst (upgrade P getTags request st)) = 426 \<and>
      snd (upgrade P getTags request st) = st) \<and>
   (headers_get (req_headers request) ''Upgrade'' = Some ''websocket'' \<and> getTags request = None \<longrightarrow>
      status (fst (upgrade P getTags request st)) = 400 \<and>
      snd (upgrade P getTags request st) = st) \<and>
   (\<forall>tags. headers_get (req_headers request) ''Upgrade'' = Some ''websocket'' \<and>
        getTags request = Some tags \<longrightarrow>
      status (fst (upgrade P getTags request st)) = 101 \<and>
      webSocket (fst (upgrade P getTags request st)) = Some (next_ws st) \<and>
      accepted (snd (upgrade P getTags request st)) = accepted st @ [(Suc (next_ws st), tags)] \<and>
      attachments (snd (upgrade P getTags request st)) =
        (attachments st)(Suc (next_ws st) \<mapsto> VArr (map VStr tags)) \<and>
      ws_events (snd (upgrade P getTags request st)) = ws_events st \<and>
      ((\<forall>w\<in>fst ` set (accepted st). w < next_ws st) \<longrightarrow>
         (\<forall>t. Suc (next_ws st) \<in> set (getWebSockets (snd (upgrade P getTags request st)) (Some t))
            \<longleftrightarrow> t \<in> set tags)))"
proof (intro conjI allI impI)
  assume "headers_get (req_headers request) ''Upgrade'' \<noteq> Some ''websocket''"
  from upgrade_refused[OF this, of P getTags st]
  show "status (fst (upgrade P getTags request st)) = 426"
    and "snd (upgrade P getTags request st) = st"
    by (simp_all add: new_Response_def)
next
  assume "headers_get (req_headers request) ''Upgrade'' = Some ''websocket'' \<and> getTags request = None"
  then have "upgrade P getTags request st =
     (new_Response P (VStr ''Cannot Upgrade: Bad Request'') 400 [] None, st)"
    by (intro upgrade_unclassified) simp_all
  then show "status (fst (upgrade P getTags request st)) = 400"
    and "snd (upgrade P getTags request st) = st"
    by (simp_all add: new_Response_def)
next
  fix tags
  assume "headers_get (req_headers request) ''Upgrade'' = Some ''websocket'' \<and>
        getTags request = Some tags"
  then have u: "upgrade P getTags request st =
     (new_Response P VNull 101 [] (Some (next_ws st)),
      st\<lparr>next_ws := next_ws st + 2,
         accepted := accepted st @ [(Suc (next_ws st), tags)],
         attachments := (attachments st)(Suc (next_ws st) \<mapsto> VArr (map VStr tags))\<rparr>)"
    by (intro upgrade_accepted) simp_all
  show "status (fst (upgrade P getTags request st)) = 101"
    and "webSocket (fst (upgrade P getTags request st)) = Some (next_ws st)"
    using u by (simp_all add: new_Response_def)
  show "accepted (snd (upgrade P getTags request st)) = accepted st @ [(Suc (next_ws st), tags)]"
    and "attachments (snd (upgrade P getTags request st)) =
        (attachments st)(Suc (next_ws st) \<mapsto> VArr (map VStr tags))"
    and "ws_events (snd (upgrade P getTags request st)) = ws_events st"
    using u by simp_all
  show "Suc (next_ws st) \<in> set (getWebSockets (snd (upgrade P getTags request st)) (Some t))
            \<longleftrightarrow> t \<in> set tags"
    if "\<forall>w\<in>fst ` set (accepted st). w < next_ws st" for t
  proof -
    from that have "Suc (next_ws st) \<notin> fst ` set (accepted st)" by auto
    then have "Suc (next_ws st) \<notin> fst ` set (filter (\<lambda>w. t \<in> set (snd w)) (accepted st))"
      by auto
    then show ?thesis using u by (simp add: getWebSockets_def)
  qed
qed

theorem upgrade_handler_witness:
  "status (fst (upgrade sample_platform sample_getTags
       (upgrade_request ''https://example.com/room/x'' ''WebSocket'') sample_state)) = 426 \<and>
   status (fst (upgrade sample_platform sample_getTags
       (upgrade_request ''https://example.com/room/y'' ''websocket'') sample_state)) = 400 \<and>
   snd (upgrade sample_platform sample_getTags
       (upgrade_request ''https://example.com/room/y'' ''websocket'') sample_state) = sample_state \<and>
   status (fst (upgrade sample_platform sample_getTags
       (upgrade_request ''https://example.com/room/x'' ''websocket'') sample_state)) = 101 \<and>
   webSocket (fst (upgrade sample_platform sample_getTags
       (upgrade_request ''https://example.com/room/x'' ''websocket'') sample_state)) = Some 5 \<and>
   accepted (snd (upgrade sample_platform sample_getTags
       (upgrade_request ''https://example.com/room/x'' ''websocket'') sample_state))
     = accepted sample_state @ [(6, [''x'', ''room''])] \<and>
   6 \<in> set (getWebSockets (snd (upgrade sample_platform sample_getTags
       (upgrade_request ''https://example.com/room/x'' ''websocket'') sample_state)) (Some ''room''))"
proof -
  note t = upgrade_handler[where P = sample_platform and getTags = sample_getTags and st = sample_state]
  have h1: "headers_get (req_headers (upgrade_request ''https://example.com/room/x'' ''WebSocket''))
      ''Upgrade'' \<noteq> Some ''websocket''"
    by (simp add: sample_upgrade_header)
  note a = t[THEN conjunct1, rule_format, OF h1, THEN conjunct1]
  have h2: "headers_get (req_headers (upgrade_request ''https://example.com/room/y'' ''websocket''))
      ''Upgrade'' = Some ''websocket'' \<and>
      sample_getTags (upgrade_request ''https://example.com/room/y'' ''websocket'') = None"
    by (simp add: sample_upgrade_header) (simp add: sample_getTags_def upgrade_request_def)
  note b = t[THEN conjunct2, THEN conjunct1, rule_format, OF h2]
  have h3: "headers_get (req_headers (upgrade_request ''https://example.com/room/x'' ''websocket''))
      ''Upgrade'' = Some ''websocket'' \<and>
      sample_getTags (upgrade_request ''https://example.com/room/x'' ''websocket'')
        = Some [''x'', ''room'']"
    by (simp add: sample_upgrade_header) (simp add: sample_getTags_def upgrade_request_def)
  note c = t[THEN conjunct2, THEN conjunct2, rule_format, OF h3]
  have n: "next_ws sample_state = 5" by (simp add: sample_state_def)
  have fresh: "\<forall>w\<in>fst ` set (accepted sample_state). w < next_ws sample_state"
    by (simp add: sample_state_def)
  have r: "''room'' \<in> set [''x'', ''room'']" by simp
  have c1: "status (fst (upgrade sample_platform sample_getTags
       (upgrade_request ''https://example.com/room/x'' ''websocket'') sample_state)) = 101"
    using c by (elim conjE)
  have c2: "webSocket (fst (upgrade sample_platform sample_getTags
       (upgrade_request ''https://example.com/room/x'' ''websocket'') sample_state)) = Some 5"
    using c n by simp
  have c3: "accepted (snd (upgrade sample_platform sample_getTags
       (upgrade_request ''https://example.com/room/x'' ''websocket'') sample_state))
     = accepted sample_state @ [(6, [''x'', ''room''])]"
    using c n by simp
  have c4: "6 \<in> set (getWebSockets (snd (upgrade sample_platform sample_getTags
       (upgrade_request ''https://example.com/room/x'' ''websocket'') sample_state)) (Some ''room''))"
    using c[THEN conjunct2, THEN conjunct2, THEN conjunct2, THEN conjunct2, THEN conjunct2,
        THEN mp, OF fresh, THEN spec, of "''room''"] n r by simp
  from a b c1 c2 c3 c4 show ?thesis by (intro conjI) simp_all
qed

text \<open>
  C10 (as amended).  The object that \<open>durableWS\<close> returns holds exactly the own
  enumerable properties of the object the wrapped initializer produced, each with its
  value, and nothing of the layer's own: a name that is not such a property reads on
  the result as it does on an empty object literal, so no \<open>webSocketMessage\<close>,
  \<open>webSocketClose\<close> or \<open>webSocketError\<close> handler is installed.  Properties that the
  initializer's object only inherits are not carried over.
\<close>

theorem durableWS_spreads_api:
  assumes "init \<lparr> cws_sendTo = sendTo, cws_close = close, cws_upgrade = upgrade P \<rparr> st = (api, st')"
  shows "durableWS P init st =
      (\<lparr> own_enumerable = own_enumerable api, other_props = Object_prototype P \<rparr>, st') \<and>
    (\<forall>p v. map_of (own_enumerable api) p = Some v \<longrightarrow>
        api_prop api p = v \<and> api_prop (fst (durableWS P init st)) p = v) \<and>
    (\<forall>p. map_of (own_enumerable api) p = None \<longrightarrow>
        api_prop (fst (durableWS P init st)) p = literal_get P [] p) \<and>
    (\<forall>p. p \<in> {''webSocketMessage'', ''webSocketClose'', ''webSocketError''} \<and>
         map_of (own_enumerable api) p = None \<and> map_of (Object_prototype P) p = None \<longrightarrow>
        api_prop (fst (durableWS P init st)) p = VUndefined)"
proof -
  have d: "durableWS P init st =
      (\<lparr> own_enumerable = own_enumerable api, other_props = Object_prototype P \<rparr>, st')"
    using assms by (simp add: durableWS_def Let_def)
  then show ?thesis
    by (simp add: api_prop_def literal_get_def)
qed

text \<open>
  An actor object that finds its \<open>webSocketMessage\<close> handler on its prototype loses it
  in the spread.
\<close>

theorem inherited_handler_dropped:
  "api_prop prototype_actor ''webSocketMessage'' = VFun 21 \<and>
   api_prop (fst (durableWS sample_platform (sample_init prototype_actor) sample_state))
     ''webSocketMessage'' = VUndefined"
  by (simp add: durableWS_def Let_def sample_init_def api_prop_def prototype_actor_def
      sample_platform_def)

theorem durableWS_spreads_api_witness:
  "api_prop (fst (durableWS sample_platform (sample_init sample_api) sample_state)) ''increment''
     = VFun 20 \<and>
   api_prop (fst (durableWS sample_platform (sample_init sample_api) sample_state)) ''webSocketMessage''
     = VUndefined \<and>
   own_enumerable (fst (durableWS sample_platform (sample_init sample_api) sample_state))
     = own_enumerable sample_api"
proof -
  have i: "sample_init sample_api
      \<lparr> cws_sendTo = sendTo, cws_close = close, cws_upgrade = upgrade sample_platform \<rparr> sample_state
      = (sample_api, sendTo AllSockets (VStr ''ready'') sample_state)"
    by (simp add: sample_init_def)
  note t = durableWS_spreads_api[where init = "sample_init sample_api", OF i]
  have o: "map_of (own_enumerable sample_api) ''increment'' = Some (VFun 20)"
    by (simp add: sample_api_def)
  note a = t[THEN conjunct2, THEN conjunct1, rule_format, OF o, THEN conjunct2]
  have n: "''webSocketMessage'' \<in> {''webSocketMessage'', ''webSocketClose'', ''webSocketError''} \<and>
      map_of (own_enumerable sample_api) ''webSocketMessage'' = None \<and>
      map_of (Object_prototype sample_platform) ''webSocketMessage'' = None"
    by (simp add: sample_api_def sample_platform_def)
  note b = t[THEN conjunct2, THEN conjunct2, THEN conjunct2, rule_format, OF n]
  have c: "own_enumerable (fst (durableWS sample_platform (sample_init sample_api) sample_state))
     = own_enumerable sample_api"
    using t[THEN conjunct1] by simp
  from a b c show ?thesis by (intro conjI)
qed

end
